theory Spec2Isabelle
  imports Complex_Main
begin

section \<open>Data model of the quiz board (App.tsx)\<close>

text \<open>
  The component \<open>App\<close> keeps the game in five React state variables
  (\<open>items\<close>, \<open>idx\<close>, \<open>running\<close>, \<open>finished\<close>, \<open>seconds\<close>) next to
  \<open>defaultSeconds\<close> and the notice \<open>snack\<close>. An event handler's \<open>set...\<close> calls are
  batched by React and take effect together, so a handler is a function from the state
  it was rendered with to the next state. JavaScript numbers are modelled as integers
  (\<open>idx\<close>, \<open>seconds\<close>, \<open>Date.now()\<close>) and as reals (\<open>performance.now()\<close>).
\<close>

datatype Rule = Empieza | Contiene | Termina

datatype Status = Pendiente | Bien | Mal | Pasada

record Item =
  letter :: string
  rule :: Rule
  prompt :: string
  answer :: string

record PlayItem = Item +
  status :: Status

datatype role = Owner | Player

text \<open>The texts shown in the snackbar, by the place that sets them.\<close>

datatype load_error = HttpStatus nat | EmptyOrMalformed | OtherError string

datatype notice =
    BankLoaded
  | BankLoadedFromFile string
  | LoadFailed load_error
  | FileReadFailed load_error
  | InvalidFormat
  | LinkCopied

record game =
  items :: "PlayItem list"
  idx :: int
  seconds :: int
  running :: bool
  finished :: bool
  defaultSeconds :: int
  snack :: "notice option"

text \<open>The state of the first render: \<open>useState\<close> initial values.\<close>

definition initial :: "int \<Rightarrow> game" where
  "initial d = \<lparr>items = [], idx = 0, seconds = d, running = False, finished = False,
     defaultSeconds = d, snack = None\<rparr>"

subsection \<open>JavaScript arithmetic and array reads\<close>

datatype error = TypeError | Untyped

text \<open>
  \<open>a % b\<close> truncates towards zero: the result has the sign of \<open>a\<close>. It is only called
  with \<open>b = items.length > 0\<close>.
\<close>

definition js_rem :: "int \<Rightarrow> int \<Rightarrow> int" where
  "js_rem a b = sgn a * (\<bar>a\<bar> mod \<bar>b\<bar>)"

text \<open>\<open>xs[j]\<close>: \<open>undefined\<close> (here \<open>None\<close>) outside the array.\<close>

definition js_get :: "'a list \<Rightarrow> int \<Rightarrow> 'a option" where
  "js_get xs j = (if 0 \<le> j \<and> j < int (length xs) then Some (xs ! nat j) else None)"

definition clamp :: "int \<Rightarrow> int \<Rightarrow> int \<Rightarrow> int" where
  "clamp n mn mx = min mx (max mn n)"

subsection \<open>Game logic\<close>

definition open_status :: "Status \<Rightarrow> bool" where
  "open_status s = (s = Pendiente \<or> s = Pasada)"

text \<open>
  The \<open>for\<close> loop of \<open>nextIndex\<close>, with the number of iterations left as the last
  argument. Reading \<open>items[j].status\<close> at a \<open>j\<close> outside the array throws a TypeError.
\<close>

fun nextIndex_loop :: "PlayItem list \<Rightarrow> int \<Rightarrow> int \<Rightarrow> nat \<Rightarrow> error + int" where
  "nextIndex_loop its from j 0 = Inr from"
| "nextIndex_loop its from j (Suc c) =
     (case js_get its j of
        None \<Rightarrow> Inl TypeError
      | Some it \<Rightarrow>
          if open_status (status it) then Inr j
          else nextIndex_loop its from (js_rem (j + 1) (int (length its))) c)"

definition nextIndex :: "PlayItem list \<Rightarrow> int \<Rightarrow> error + int" where
  "nextIndex its from =
     (if its = [] then Inr 0
      else nextIndex_loop its from (js_rem (from + 1) (int (length its))) (length its))"

text \<open>
  \<open>mark\<close> scans the items it was rendered with (\<open>nextIndex\<close> closes over \<open>items\<close>, not
  over \<open>updated\<close>). With \<open>idx\<close> outside the array JavaScript would store an object
  without the fields of an item; that state has no value of type \<open>PlayItem list\<close> and is
  the result \<open>Inl Untyped\<close>.
\<close>

definition mark :: "role \<Rightarrow> Status \<Rightarrow> game \<Rightarrow> error + game" where
  "mark r st g =
     (if r \<noteq> Owner \<or> finished g \<or> items g = [] then Inr g
      else case js_get (items g) (idx g) of
        None \<Rightarrow> Inl Untyped
      | Some cur \<Rightarrow>
          (case nextIndex (items g) (idx g) of
             Inl e \<Rightarrow> Inl e
           | Inr j \<Rightarrow>
               Inr (g\<lparr>items := (items g)[nat (idx g) := cur\<lparr>status := st\<rparr>], idx := j\<rparr>)))"

definition start :: "role \<Rightarrow> game \<Rightarrow> game" where
  "start r g = (if r = Owner then g\<lparr>running := True, finished := False\<rparr> else g)"

definition pause :: "role \<Rightarrow> game \<Rightarrow> game" where
  "pause r g = (if r = Owner then g\<lparr>running := False\<rparr> else g)"

definition reset :: "role \<Rightarrow> game \<Rightarrow> game" where
  "reset r g =
     (if r \<noteq> Owner then g
      else g\<lparr>items := map (\<lambda>x. x\<lparr>status := Pendiente\<rparr>) (items g), idx := 0,
             seconds := defaultSeconds g, finished := False, running := False\<rparr>)"

definition setTimer :: "role \<Rightarrow> int \<Rightarrow> game \<Rightarrow> game" where
  "setTimer r newSeconds g =
     (if r \<noteq> Owner then g else g\<lparr>seconds := clamp newSeconds 0 (60 * 60)\<rparr>)"

definition adjustTimer :: "role \<Rightarrow> int \<Rightarrow> game \<Rightarrow> game" where
  "adjustTimer r delta g = setTimer r (seconds g + delta) g"

text \<open>
  \<open>applyTimerInput\<close> takes the result of \<open>parseMmSs(timerInput)\<close> as its argument
  (\<open>None\<close> for \<open>null\<close>); \<open>parseMmSs\<close> rounds and does not reject negative
  numbers. The write of the new default to \<open>localStorage\<close> is left out.
\<close>

definition applyTimerInput :: "role \<Rightarrow> int option \<Rightarrow> game \<Rightarrow> game" where
  "applyTimerInput r parsed g =
     (case parsed of
        None \<Rightarrow> g\<lparr>snack := Some InvalidFormat\<rparr>
      | Some p \<Rightarrow> (setTimer r p g)\<lparr>defaultSeconds := p\<rparr>)"

text \<open>
  The countdown: the callback of the interval is \<open>setSeconds(s => (s > 0 ? s - 1 : 0))\<close>,
  and the interval exists while the role is owner, the game runs and is not finished.
  A firing that is already queued when the interval is cleared still runs the callback.
\<close>

definition countdown :: "game \<Rightarrow> game" where
  "countdown g = g\<lparr>seconds := (if seconds g > 0 then seconds g - 1 else 0)\<rparr>"

definition tick :: "role \<Rightarrow> game \<Rightarrow> game" where
  "tick r g = (if r \<noteq> Owner \<or> \<not> running g \<or> finished g then g else countdown g)"

text \<open>The state updates of the expiry effect (its call of \<open>broadcastAll\<close> is modelled below).\<close>

definition expire :: "role \<Rightarrow> game \<Rightarrow> game" where
  "expire r g =
     (if seconds g = 0 \<and> running g \<and> r = Owner
      then g\<lparr>running := False, finished := True\<rparr> else g)"

subsection \<open>Loading a question bank\<close>

text \<open>
  The parsed JSON document. The source annotates it \<open>Item[]\<close>: an element is \<open>null\<close>
  (\<open>None\<close>) or an object whose four properties are strings or absent (an element
  that is a number or a string has none of the four properties). Properties of other
  types are not covered. \<open>String.toUpperCase\<close> is the parameter \<open>toUpperCase\<close> of the
  loaders.
\<close>

record raw_item =
  raw_letter :: "string option"
  raw_rule :: "string option"
  raw_prompt :: "string option"
  raw_answer :: "string option"

datatype json_doc = NotArray | Array "raw_item option list"

text \<open>Truthiness of a property that is a string or absent.\<close>

definition truthy_str :: "string option \<Rightarrow> bool" where
  "truthy_str v = (case v of None \<Rightarrow> False | Some s \<Rightarrow> s \<noteq> [])"

text \<open>\<open>String(v)\<close>.\<close>

definition js_String :: "string option \<Rightarrow> string" where
  "js_String v = (case v of None \<Rightarrow> ''undefined'' | Some s \<Rightarrow> s)"

text \<open>The filter \<open>d && d.letter && d.rule && d.prompt && d.answer\<close> on an object \<open>d\<close>.\<close>

definition keep :: "raw_item \<Rightarrow> bool" where
  "keep d = (truthy_str (raw_letter d) \<and> truthy_str (raw_rule d)
             \<and> truthy_str (raw_prompt d) \<and> truthy_str (raw_answer d))"

definition to_rule :: "string option \<Rightarrow> Rule" where
  "to_rule v =
     (if v = Some ''empieza'' then Empieza
      else if v = Some ''contiene'' then Contiene
      else if v = Some ''termina'' then Termina
      else Empieza)"

definition map_item :: "(string \<Rightarrow> string) \<Rightarrow> raw_item \<Rightarrow> PlayItem" where
  "map_item toUpperCase d =
     \<lparr>letter = toUpperCase (js_String (raw_letter d)), rule = to_rule (raw_rule d),
      prompt = js_String (raw_prompt d), answer = js_String (raw_answer d),
      status = Pendiente\<rparr>"

definition mapped :: "(string \<Rightarrow> string) \<Rightarrow> json_doc \<Rightarrow> PlayItem list" where
  "mapped toUpperCase data_doc =
     [map_item toUpperCase d.
        Some d \<leftarrow> (case data_doc of Array ds \<Rightarrow> ds | NotArray \<Rightarrow> []), keep d]"

definition FALLBACK_DBZ :: "Item list" where
  "FALLBACK_DBZ = []"

text \<open>
  What \<open>fetch\<close> and \<open>res.json()\<close> gave: the promise rejected, a response that is not
  \<open>ok\<close>, a body that is not JSON, or the parsed document.
\<close>

datatype fetch_result = Rejected string | NotOk nat | BodyError string | Body json_doc

text \<open>The \<open>try\<close> block up to the check \<open>if (!mapped.length) throw\<close>.\<close>

definition url_bank :: "(string \<Rightarrow> string) \<Rightarrow> fetch_result \<Rightarrow> load_error + PlayItem list" where
  "url_bank toUpperCase res =
     (case res of
        Rejected msg \<Rightarrow> Inl (OtherError msg)
      | NotOk n \<Rightarrow> Inl (HttpStatus n)
      | BodyError msg \<Rightarrow> Inl (OtherError msg)
      | Body data_doc \<Rightarrow>
          (let m = mapped toUpperCase data_doc
           in if m = [] then Inl EmptyOrMalformed else Inr m))"

text \<open>
  Both loaders are \<open>async\<close>: they make their \<open>set...\<close> calls after an \<open>await\<close>, on
  the state \<open>g\<close> the component has by then, while the \<open>defaultSeconds\<close> they pass to
  \<open>setSeconds\<close> is the constant of the render that started the load. That captured
  value is the argument \<open>startDefault\<close>; it differs from \<open>defaultSeconds g\<close> when the
  timer input was applied while the load was pending.

  The write of the url to \<open>localStorage\<close> after a successful load touches no state of
  the game and is left out.
\<close>

definition loadFromUrl ::
  "(string \<Rightarrow> string) \<Rightarrow> fetch_result \<Rightarrow> bool \<Rightarrow> int \<Rightarrow> game \<Rightarrow> game" where
  "loadFromUrl toUpperCase res silent startDefault g =
     (case url_bank toUpperCase res of
        Inr m \<Rightarrow>
          g\<lparr>items := m, idx := 0, finished := False, running := False,
            seconds := startDefault,
            snack := (if \<not> silent then Some BankLoaded else snack g)\<rparr>
      | Inl e \<Rightarrow>
          g\<lparr>items := map (\<lambda>i. \<lparr>letter = toUpperCase (letter i), rule = rule i,
                               prompt = prompt i, answer = answer i,
                               status = Pendiente\<rparr>) FALLBACK_DBZ,
            idx := 0, finished := False, running := False,
            seconds := startDefault, snack := Some (LoadFailed e)\<rparr>)"

text \<open>
  A file: its name and what \<open>file.text()\<close> with \<open>JSON.parse\<close> gave (\<open>Inl\<close> the
  message of the exception).
\<close>

definition file_bank :: "(string \<Rightarrow> string) \<Rightarrow> string + json_doc \<Rightarrow> load_error + PlayItem list" where
  "file_bank toUpperCase content =
     (case content of
        Inl msg \<Rightarrow> Inl (OtherError msg)
      | Inr data_doc \<Rightarrow>
          (let m = mapped toUpperCase data_doc
           in if m = [] then Inl EmptyOrMalformed else Inr m))"

definition loadFromFile ::
  "(string \<Rightarrow> string) \<Rightarrow> string \<Rightarrow> string + json_doc \<Rightarrow> int \<Rightarrow> game \<Rightarrow> game" where
  "loadFromFile toUpperCase name content startDefault g =
     (case file_bank toUpperCase content of
        Inr m \<Rightarrow>
          g\<lparr>items := m, idx := 0, finished := False, running := False,
            seconds := startDefault, snack := Some (BankLoadedFromFile name)\<rparr>
      | Inl e \<Rightarrow> g\<lparr>snack := Some (FileReadFailed e)\<rparr>)"

subsection \<open>Owner operations as steps\<close>

text \<open>
  A load appears as the step of its completion; the last argument of \<open>LoadUrl\<close> and
  \<open>LoadFile\<close> is the \<open>defaultSeconds\<close> of the render that started it.
\<close>

datatype op =
    Start
  | Pause
  | Reset
  | Mark Status
  | Tick
  | Countdown
  | Expire
  | AdjustTimer int
  | ApplyTimerInput "int option"
  | LoadUrl fetch_result bool int
  | LoadFile string "string + json_doc" int

fun step :: "(string \<Rightarrow> string) \<Rightarrow> role \<Rightarrow> op \<Rightarrow> game \<Rightarrow> error + game" where
  "step up r Start g = Inr (start r g)"
| "step up r Pause g = Inr (pause r g)"
| "step up r Reset g = Inr (reset r g)"
| "step up r (Mark st) g = mark r st g"
| "step up r Tick g = Inr (tick r g)"
| "step up r Countdown g = Inr (countdown g)"
| "step up r Expire g = Inr (expire r g)"
| "step up r (AdjustTimer delta) g = Inr (adjustTimer r delta g)"
| "step up r (ApplyTimerInput parsed) g = Inr (applyTimerInput r parsed g)"
| "step up r (LoadUrl res silent d) g = Inr (loadFromUrl up res silent d g)"
| "step up r (LoadFile name content d) g = Inr (loadFromFile up name content d g)"

fun run :: "(string \<Rightarrow> string) \<Rightarrow> role \<Rightarrow> op list \<Rightarrow> game \<Rightarrow> error + game" where
  "run up r [] g = Inr g"
| "run up r (x # xs) g = (case step up r x g of Inl e \<Rightarrow> Inl e | Inr g' \<Rightarrow> run up r xs g')"

definition valid_index :: "game \<Rightarrow> bool" where
  "valid_index g = (0 \<le> idx g \<and> idx g < int (length (items g)))"

section \<open>Properties of the game logic\<close>

lemma js_rem_nonneg:
  assumes "0 \<le> a" "0 < b"
  shows "js_rem a b = a mod b"
  using assms by (cases "a = 0") (simp_all add: js_rem_def)

lemma js_rem_succ_range:
  assumes "0 \<le> j" "0 < n"
  shows "0 \<le> js_rem (j + 1) n \<and> js_rem (j + 1) n < n"
  using assms by (simp add: js_rem_nonneg)

lemma nextIndex_loop_range:
  assumes "0 \<le> j" "j < int (length its)"
  shows "\<exists>k. nextIndex_loop its from j c = Inr k
              \<and> (k = from \<or> (0 \<le> k \<and> k < int (length its)))"
  using assms
proof (induction c arbitrary: j)
  case 0
  then show ?case by simp
next
  case (Suc c)
  have n: "0 < int (length its)" using Suc.prems by linarith
  have r: "0 \<le> js_rem (j + 1) (int (length its))
           \<and> js_rem (j + 1) (int (length its)) < int (length its)"
    using js_rem_succ_range [OF Suc.prems(1) n] .
  show ?case
  proof (cases "open_status (status (its ! nat j))")
    case True
    with Suc.prems show ?thesis by (simp add: js_get_def)
  next
    case False
    with Suc.prems Suc.IH [of "js_rem (j + 1) (int (length its))"] r
    show ?thesis by (simp add: js_get_def)
  qed
qed

lemma nextIndex_range:
  assumes "its \<noteq> []" "0 \<le> from"
  shows "\<exists>k. nextIndex its from = Inr k
              \<and> (k = from \<or> (0 \<le> k \<and> k < int (length its)))"
proof -
  have n: "0 < int (length its)" using assms(1) by simp
  from js_rem_succ_range [OF assms(2) n] nextIndex_loop_range
  show ?thesis using assms(1) by (simp add: nextIndex_def)
qed

lemma mark_valid:
  assumes "items g \<noteq> [] \<longrightarrow> valid_index g"
  shows "\<exists>g'. mark r st g = Inr g'
           \<and> (items g' \<noteq> [] \<longrightarrow> valid_index g')
           \<and> running g' = running g \<and> finished g' = finished g
           \<and> seconds g' = seconds g"
proof (cases "r \<noteq> Owner \<or> finished g \<or> items g = []")
  case True
  with assms show ?thesis by (auto simp: mark_def)
next
  case False
  then have ne: "items g \<noteq> []" by simp
  with assms have v: "0 \<le> idx g" "idx g < int (length (items g))"
    by (simp_all add: valid_index_def)
  from nextIndex_range [OF ne v(1)] obtain k where
    k: "nextIndex (items g) (idx g) = Inr k"
       "k = idx g \<or> (0 \<le> k \<and> k < int (length (items g)))"
    by blast
  from False v k show ?thesis
    by (auto simp: mark_def js_get_def valid_index_def)
qed

subsection \<open>Reachable states\<close>

definition invariant :: "game \<Rightarrow> bool" where
  "invariant g = ((finished g \<longrightarrow> \<not> running g) \<and> (items g \<noteq> [] \<longrightarrow> valid_index g))"

lemma invariant_initial: "invariant (initial d)"
  by (simp add: invariant_def initial_def)

lemma mapped_status: "\<forall>x \<in> set (mapped up doc). status x = Pendiente"
  by (auto simp: mapped_def map_item_def split: json_doc.splits option.splits)

lemma url_bank_nonempty: "url_bank up res = Inr m \<Longrightarrow> m \<noteq> []"
  by (auto simp: url_bank_def Let_def split: fetch_result.splits if_splits)

lemma file_bank_nonempty: "file_bank up content = Inr m \<Longrightarrow> m \<noteq> []"
  by (auto simp: file_bank_def Let_def split: sum.splits if_splits)

lemma loadFromUrl_invariant: "invariant (loadFromUrl up res silent d g)"
  by (auto simp: loadFromUrl_def invariant_def valid_index_def FALLBACK_DBZ_def
      dest: url_bank_nonempty split: sum.splits)

lemma loadFromFile_invariant: "invariant g \<Longrightarrow> invariant (loadFromFile up name content d g)"
  by (auto simp: loadFromFile_def invariant_def valid_index_def
      dest: file_bank_nonempty split: sum.splits)

lemma step_invariant:
  assumes "invariant g"
  shows "\<exists>g'. step up r x g = Inr g' \<and> invariant g'"
proof (cases x)
  case (Mark st)
  from assms have "items g \<noteq> [] \<longrightarrow> valid_index g" by (simp add: invariant_def)
  from mark_valid [OF this, of r st] assms Mark show ?thesis
    by (auto simp: invariant_def)
next
  case (LoadUrl res silent d)
  then show ?thesis by (simp add: loadFromUrl_invariant)
next
  case (LoadFile name content d)
  with assms show ?thesis by (simp add: loadFromFile_invariant)
qed (use assms in \<open>auto simp: invariant_def valid_index_def start_def pause_def reset_def
      tick_def countdown_def expire_def adjustTimer_def setTimer_def applyTimerInput_def
      split: option.splits\<close>)

lemma run_invariant:
  assumes "invariant g"
  shows "\<exists>g'. run up r xs g = Inr g' \<and> invariant g'"
  using assms
proof (induction xs arbitrary: g)
  case Nil
  then show ?case by simp
next
  case (Cons x xs)
  from step_invariant [OF Cons.prems, of up r x] obtain g1 where
    g1: "step up r x g = Inr g1" "invariant g1" by blast
  from Cons.IH [OF g1(2)] g1(1) show ?case by simp
qed

text \<open>No sequence of operations from the first render throws.\<close>

lemma run_total: "\<exists>g. run up r xs (initial d) = Inr g"
  using run_invariant [OF invariant_initial] by blast

text \<open>
  C4. Every state the operations start, pause, reset, mark, timer tick, timer expiry,
  timer adjustment and bank load reach from the first render, in any order, has
  \<open>finished \<longrightarrow> \<not> running\<close>, and when \<open>items\<close> is not empty \<open>idx\<close> is an index of it.
\<close>

theorem reachable_invariant:
  assumes "run up r xs (initial d) = Inr g"
  shows "(finished g \<longrightarrow> \<not> running g)
         \<and> (items g \<noteq> [] \<longrightarrow> 0 \<le> idx g \<and> idx g < int (length (items g)))"
proof -
  from run_invariant [OF invariant_initial, of up r xs d] assms
  have "invariant g" by simp
  then show ?thesis by (simp add: invariant_def valid_index_def)
qed

text \<open>
  A bank of four elements for the concrete runs: two well-formed records, \<open>null\<close>, and
  a record whose prompt is empty.
\<close>

definition example_records :: "raw_item option list" where
  "example_records =
     [Some \<lparr>raw_letter = Some ''a'', raw_rule = Some ''contiene'',
            raw_prompt = Some ''p1'', raw_answer = Some ''x1''\<rparr>,
      None,
      Some \<lparr>raw_letter = Some ''c'', raw_rule = Some ''termina'',
            raw_prompt = Some [], raw_answer = Some ''x3''\<rparr>,
      Some \<lparr>raw_letter = Some ''b'', raw_rule = Some ''otra'',
            raw_prompt = Some ''p2'', raw_answer = Some ''x2''\<rparr>]"

definition example_doc :: json_doc where
  "example_doc = Array example_records"

definition example_items :: "PlayItem list" where
  "example_items =
     [\<lparr>letter = ''a'', rule = Contiene, prompt = ''p1'', answer = ''x1'', status = Pendiente\<rparr>,
      \<lparr>letter = ''b'', rule = Empieza, prompt = ''p2'', answer = ''x2'', status = Pendiente\<rparr>]"

lemma mapped_example: "mapped id example_doc = example_items"
  by (simp add: mapped_def example_doc_def example_records_def example_items_def keep_def
      truthy_str_def
      map_item_def js_String_def to_rule_def)

theorem reachable_invariant_witness:
  "run id Owner
     [LoadFile ''bank.json'' (Inr example_doc) 1, Start, Mark Bien, Tick, Expire] (initial 1)
   = Inr \<lparr>items = [\<lparr>letter = ''a'', rule = Contiene, prompt = ''p1'', answer = ''x1'',
                      status = Bien\<rparr>,
                    \<lparr>letter = ''b'', rule = Empieza, prompt = ''p2'', answer = ''x2'',
                      status = Pendiente\<rparr>],
           idx = 1, seconds = 0, running = False, finished = True, defaultSeconds = 1,
           snack = Some (BankLoadedFromFile ''bank.json'')\<rparr>
   \<and> (1::int) < int (length [\<lparr>letter = ''a'', rule = Contiene, prompt = ''p1'',
                                answer = ''x1'', status = Bien\<rparr>,
                              \<lparr>letter = ''b'', rule = Empieza, prompt = ''p2'',
                                answer = ''x2'', status = Pendiente\<rparr>])"
proof -
  have h: "run id Owner
     [LoadFile ''bank.json'' (Inr example_doc) 1, Start, Mark Bien, Tick, Expire] (initial 1)
   = Inr \<lparr>items = [\<lparr>letter = ''a'', rule = Contiene, prompt = ''p1'', answer = ''x1'',
                      status = Bien\<rparr>,
                    \<lparr>letter = ''b'', rule = Empieza, prompt = ''p2'', answer = ''x2'',
                      status = Pendiente\<rparr>],
           idx = 1, seconds = 0, running = False, finished = True, defaultSeconds = 1,
           snack = Some (BankLoadedFromFile ''bank.json'')\<rparr>"
    by (simp add: initial_def loadFromFile_def file_bank_def mapped_example example_items_def
        start_def mark_def js_get_def nextIndex_def js_rem_def open_status_def tick_def
        countdown_def expire_def)
  from reachable_invariant [OF h] h show ?thesis by simp
qed

subsection \<open>Marking an item\<close>

lemma js_rem_succ_nat:
  assumes "0 < n"
  shows "js_rem (int j + 1) (int n) = int (Suc j mod n)"
proof -
  have "js_rem (int j + 1) (int n) = (int j + 1) mod int n"
    using assms by (intro js_rem_nonneg) simp_all
  also have "\<dots> = int (Suc j mod n)" by (simp add: zmod_int add.commute)
  finally show ?thesis .
qed

lemma nextIndex_loop_none:
  assumes "j < length its"
    and "\<forall>t<c. \<not> open_status (status (its ! ((j + t) mod length its)))
               \<or> int ((j + t) mod length its) = from"
  shows "nextIndex_loop its from (int j) c = Inr from"
  using assms
proof (induction c arbitrary: j)
  case 0
  then show ?case by simp
next
  case (Suc c)
  have n: "0 < length its" using Suc.prems(1) by (cases its) simp_all
  have here: "\<not> open_status (status (its ! j)) \<or> int j = from"
    using Suc.prems(1) Suc.prems(2) [rule_format, of 0] by simp
  have next_lt: "Suc j mod length its < length its" using n by simp
  have rest: "\<forall>t<c. \<not> open_status (status (its ! ((Suc j mod length its + t) mod length its)))
               \<or> int ((Suc j mod length its + t) mod length its) = from"
  proof (intro allI impI)
    fix t assume "t < c"
    then have "Suc t < Suc c" by simp
    from Suc.prems(2) [rule_format, OF this]
    show "\<not> open_status (status (its ! ((Suc j mod length its + t) mod length its)))
               \<or> int ((Suc j mod length its + t) mod length its) = from"
      by (simp add: mod_add_left_eq)
  qed
  from Suc.IH [OF next_lt rest] here Suc.prems(1) n show ?case
    by (auto simp: js_get_def js_rem_succ_nat)
qed

lemma nextIndex_loop_first:
  assumes "j < length its" "t < c"
    and "open_status (status (its ! ((j + t) mod length its)))"
    and "\<forall>t'<t. \<not> open_status (status (its ! ((j + t') mod length its)))"
  shows "nextIndex_loop its from (int j) c = Inr (int ((j + t) mod length its))"
  using assms
proof (induction c arbitrary: j t)
  case 0
  then show ?case by simp
next
  case (Suc c)
  have n: "0 < length its" using Suc.prems(1) by (cases its) simp_all
  show ?case
  proof (cases t)
    case 0
    with Suc.prems show ?thesis by (simp add: js_get_def)
  next
    case (Suc t0)
    have closed: "\<not> open_status (status (its ! j))"
      using Suc.prems(1) Suc.prems(4) [rule_format, of 0] Suc by simp
    have next_lt: "Suc j mod length its < length its" using n by simp
    have t0: "t0 < c" using Suc.prems(2) Suc by simp
    have eq: "\<And>u. (Suc j mod length its + u) mod length its = (j + Suc u) mod length its"
      by (simp add: mod_add_left_eq)
    have op: "open_status (status (its ! ((Suc j mod length its + t0) mod length its)))"
      using Suc.prems(3) Suc by (simp add: eq)
    have before: "\<forall>t'<t0. \<not> open_status (status (its ! ((Suc j mod length its + t') mod length its)))"
    proof (intro allI impI)
      fix t' assume "t' < t0"
      then have "Suc t' < t" using Suc by simp
      from Suc.prems(4) [rule_format, OF this]
      show "\<not> open_status (status (its ! ((Suc j mod length its + t') mod length its)))"
        by (simp add: eq)
    qed
    from Suc.IH [OF next_lt t0 op before] closed Suc.prems(1) n Suc show ?thesis
      by (simp add: js_get_def js_rem_succ_nat eq)
  qed
qed


lemma nextIndex_none:
  assumes "i < length its"
    and "\<forall>k. 1 \<le> k \<and> k < length its \<longrightarrow> \<not> open_status (status (its ! ((i + k) mod length its)))"
  shows "nextIndex its (int i) = Inr (int i)"
proof -
  have n: "0 < length its" using assms(1) by (cases its) simp_all
  have eq: "\<And>u. (Suc i mod length its + u) mod length its = (i + Suc u) mod length its"
    by (simp add: mod_add_left_eq)
  have all: "\<forall>t<length its. \<not> open_status (status (its ! ((Suc i mod length its + t) mod length its)))
               \<or> int ((Suc i mod length its + t) mod length its) = int i"
  proof (intro allI impI)
    fix t assume t: "t < length its"
    show "\<not> open_status (status (its ! ((Suc i mod length its + t) mod length its)))
               \<or> int ((Suc i mod length its + t) mod length its) = int i"
    proof (cases "Suc t < length its")
      case True
      with assms(2) [rule_format, of "Suc t"] show ?thesis by (simp add: eq)
    next
      case False
      with t have "Suc t = length its" by simp
      then have "(i + Suc t) mod length its = i" using assms(1) by simp
      then show ?thesis by (simp add: eq)
    qed
  qed
  have lt: "Suc i mod length its < length its" using n by simp
  from nextIndex_loop_none [OF lt all] n show ?thesis
    by (simp add: nextIndex_def js_rem_succ_nat)
qed

lemma nextIndex_first:
  assumes "i < length its" "1 \<le> k" "k < length its"
    and "open_status (status (its ! ((i + k) mod length its)))"
    and "\<forall>k'. 1 \<le> k' \<and> k' < k \<longrightarrow> \<not> open_status (status (its ! ((i + k') mod length its)))"
  shows "nextIndex its (int i) = Inr (int ((i + k) mod length its))"
proof -
  have n: "0 < length its" using assms(1) by (cases its) simp_all
  have eq: "\<And>u. (Suc i mod length its + u) mod length its = (i + Suc u) mod length its"
    by (simp add: mod_add_left_eq)
  obtain t where t: "k = Suc t" using assms(2) by (cases k) simp_all
  have lt: "Suc i mod length its < length its" using n by simp
  have tn: "t < length its" using assms(3) t by simp
  have op: "open_status (status (its ! ((Suc i mod length its + t) mod length its)))"
    using assms(4) t by (simp add: eq)
  have before: "\<forall>t'<t. \<not> open_status (status (its ! ((Suc i mod length its + t') mod length its)))"
  proof (intro allI impI)
    fix t' assume "t' < t"
    then have "1 \<le> Suc t' \<and> Suc t' < k" using t by simp
    from assms(5) [rule_format, OF this]
    show "\<not> open_status (status (its ! ((Suc i mod length its + t') mod length its)))"
      by (simp add: eq)
  qed
  from nextIndex_loop_first [OF lt tn op before, of "int i"] n t show ?thesis
    by (simp add: nextIndex_def js_rem_succ_nat eq)
qed

lemma cyclic_other:
  assumes "i < n" "1 \<le> k" "k < (n::nat)"
  shows "(i + k) mod n \<noteq> i"
proof
  assume e: "(i + k) mod n = i"
  show False
  proof (cases "i + k < n")
    case True
    with e assms show False by simp
  next
    case False
    then have "(i + k) mod n = i + k - n" using assms
      by (simp add: mod_if)
    with e assms False show False by simp
  qed
qed

text \<open>
  C6 (as amended). On a non-empty list, in a game that is not finished and with \<open>idx\<close>
  an index of the list, \<open>mark\<close> by the owner sets the status of the item at \<open>idx\<close> to
  the marked value and leaves every other item and the timer alone. The new \<open>idx\<close> is
  the first index after the old one, going forward and wrapping modulo the length, of
  another item that is pending or skipped; when no other item is pending or skipped,
  \<open>idx\<close> does not change.
\<close>

theorem mark_advances:
  assumes "\<not> finished g" "items g \<noteq> []" "0 \<le> idx g" "idx g < int (length (items g))"
  shows "\<exists>g'. mark Owner st g = Inr g'
     \<and> length (items g') = length (items g)
     \<and> items g' ! nat (idx g) = (items g ! nat (idx g))\<lparr>status := st\<rparr>
     \<and> (\<forall>j. j < length (items g) \<and> j \<noteq> nat (idx g) \<longrightarrow> items g' ! j = items g ! j)
     \<and> seconds g' = seconds g \<and> running g' = running g \<and> finished g' = finished g
     \<and> (if \<exists>k. 1 \<le> k \<and> k < length (items g)
              \<and> open_status (status (items g' ! ((nat (idx g) + k) mod length (items g))))
         then \<exists>k. 1 \<le> k \<and> k < length (items g)
              \<and> idx g' = int ((nat (idx g) + k) mod length (items g))
              \<and> open_status (status (items g' ! ((nat (idx g) + k) mod length (items g))))
              \<and> (\<forall>k'. 1 \<le> k' \<and> k' < k \<longrightarrow>
                    \<not> open_status (status (items g' ! ((nat (idx g) + k') mod length (items g)))))
         else idx g' = idx g)"
proof -
  define its where "its = items g"
  define i where "i = nat (idx g)"
  define new where "new = its[i := (its ! i)\<lparr>status := st\<rparr>]"
  have i: "i < length its" "idx g = int i" using assms(3,4) by (simp_all add: i_def its_def)
  have same: "new ! ((i + k) mod length its) = its ! ((i + k) mod length its)"
    if "1 \<le> k" "k < length its" for k
  proof -
    from cyclic_other [OF i(1) that] have "i \<noteq> (i + k) mod length its" by simp
    then show ?thesis unfolding new_def by (rule nth_list_update_neq)
  qed
  have cur: "js_get (items g) (idx g) = Some (its ! i)"
    using assms(3,4) by (simp add: js_get_def its_def i_def)
  have nxt: "nextIndex (items g) (idx g) = nextIndex its (int i)"
    using assms(3) by (simp add: its_def i_def)
  have res: "mark Owner st g = Inr (g\<lparr>items := new, idx := j\<rparr>)"
    if "nextIndex its (int i) = Inr j" for j
    using assms(1,2) that by (simp add: mark_def cur nxt new_def its_def i_def)
  let ?P = "\<lambda>k. 1 \<le> k \<and> k < length its \<and> open_status (status (its ! ((i + k) mod length its)))"
  show ?thesis
  proof (cases "\<exists>k. ?P k")
    case True
    define k where "k = (LEAST k. ?P k)"
    from True have Pk: "?P k" unfolding k_def by (rule LeastI_ex)
    have least: "\<And>k'. k' < k \<Longrightarrow> \<not> ?P k'" unfolding k_def by (rule not_less_Least)
    have before: "\<forall>k'. 1 \<le> k' \<and> k' < k \<longrightarrow> \<not> open_status (status (its ! ((i + k') mod length its)))"
      using least Pk by auto
    from nextIndex_first [OF i(1) _ _ _ before] Pk
    have "nextIndex its (int i) = Inr (int ((i + k) mod length its))" by simp
    from res [OF this] have m: "mark Owner st g = Inr (g\<lparr>items := new, idx := int ((i + k) mod length its)\<rparr>)" .
    have ex: "\<exists>k. 1 \<le> k \<and> k < length its \<and> open_status (status (new ! ((i + k) mod length its)))"
      using Pk same by auto
    have wit: "1 \<le> k \<and> k < length its
              \<and> open_status (status (new ! ((i + k) mod length its)))
              \<and> (\<forall>k'. 1 \<le> k' \<and> k' < k \<longrightarrow>
                    \<not> open_status (status (new ! ((i + k') mod length its))))"
      using Pk before same by auto
    show ?thesis
      unfolding m its_def [symmetric] i_def [symmetric]
      using ex wit i(1) by (auto simp: new_def)
  next
    case False
    then have none: "\<forall>k. 1 \<le> k \<and> k < length its \<longrightarrow> \<not> open_status (status (its ! ((i + k) mod length its)))"
      by blast
    from res [OF nextIndex_none [OF i(1) none]]
    have m: "mark Owner st g = Inr (g\<lparr>items := new, idx := int i\<rparr>)" .
    have nex: "\<not> (\<exists>k. 1 \<le> k \<and> k < length its \<and> open_status (status (new ! ((i + k) mod length its))))"
      using none same by auto
    show ?thesis
      unfolding m its_def [symmetric] i_def [symmetric]
      using nex i by (auto simp: new_def)
  qed
qed

definition example_game :: game where
  "example_game =
     \<lparr>items = [\<lparr>letter = ''A'', rule = Empieza, prompt = ''p1'', answer = ''x1'',
                 status = Pendiente\<rparr>,
               \<lparr>letter = ''B'', rule = Contiene, prompt = ''p2'', answer = ''x2'',
                 status = Bien\<rparr>,
               \<lparr>letter = ''C'', rule = Termina, prompt = ''p3'', answer = ''x3'',
                 status = Pasada\<rparr>],
      idx = 0, seconds = 90, running = True, finished = False, defaultSeconds = 180,
      snack = None\<rparr>"

theorem mark_advances_witness:
  "\<not> finished example_game \<and> items example_game \<noteq> [] \<and> 0 \<le> idx example_game
   \<and> idx example_game < int (length (items example_game))
   \<and> (\<exists>g'. mark Owner Bien example_game = Inr g' \<and> idx g' = 2
          \<and> map status (items g') = [Bien, Bien, Pasada])"
proof -
  have h1: "\<not> finished example_game" by (simp add: example_game_def)
  have h2: "items example_game \<noteq> []" by (simp add: example_game_def)
  have h3: "0 \<le> idx example_game" by (simp add: example_game_def)
  have h4: "idx example_game < int (length (items example_game))"
    by (simp add: example_game_def)
  from mark_advances [OF h1 h2 h3 h4, of Bien] obtain g' where
    g': "mark Owner Bien example_game = Inr g'" by blast
  then have "idx g' = 2 \<and> map status (items g') = [Bien, Bien, Pasada]"
    by (auto simp: mark_def example_game_def js_get_def nextIndex_def js_rem_def
        open_status_def)
  with g' h1 h2 h3 h4 show ?thesis by (intro conjI exI [of _ g']) simp_all
qed

text \<open>
  The claim as stated fails when no other item is pending or skipped: the only item is
  marked correct, \<open>idx\<close> stays on it, and its status is neither pending nor skipped.
\<close>

theorem mark_advances_counterexample:
  "mark Owner Bien
     \<lparr>items = [\<lparr>letter = ''A'', rule = Empieza, prompt = ''p1'', answer = ''x1'',
                 status = Pendiente\<rparr>],
      idx = 0, seconds = 90, running = True, finished = False, defaultSeconds = 180,
      snack = None\<rparr>
   = Inr \<lparr>items = [\<lparr>letter = ''A'', rule = Empieza, prompt = ''p1'', answer = ''x1'',
                      status = Bien\<rparr>],
           idx = 0, seconds = 90, running = True, finished = False, defaultSeconds = 180,
           snack = None\<rparr>
   \<and> \<not> open_status Bien"
  by (simp add: mark_def js_get_def nextIndex_def js_rem_def open_status_def)

subsection \<open>The timer\<close>

text \<open>
  C5 (as amended). Start, pause, mark and timer expiry leave \<open>seconds\<close> as it is, and a
  timer tick from a value that is not negative does not increase it. The owner's timer
  controls set it to the new value clamped to \<open>[0, 3600]\<close>, whether or not the timer
  runs. Reset sets it to \<open>defaultSeconds\<close>. Every load from a URL and a successful
  load from a file set it to the \<open>defaultSeconds\<close> of the render that started the load;
  a failed load from a file leaves it.
\<close>

theorem timer_steps:
  assumes "step up r x g = Inr g'"
  shows "(x = Start \<or> x = Pause \<or> x = Expire \<or> (\<exists>st. x = Mark st) \<longrightarrow> seconds g' = seconds g)
     \<and> ((x = Tick \<or> x = Countdown) \<and> 0 \<le> seconds g \<longrightarrow>
           seconds g' \<le> seconds g \<and> 0 \<le> seconds g')
     \<and> (\<forall>delta. x = AdjustTimer delta \<and> r = Owner \<longrightarrow>
           seconds g' = clamp (seconds g + delta) 0 3600)
     \<and> (\<forall>p. x = ApplyTimerInput (Some p) \<and> r = Owner \<longrightarrow> seconds g' = clamp p 0 3600)
     \<and> (x = Reset \<and> r = Owner \<longrightarrow> seconds g' = defaultSeconds g)
     \<and> (\<forall>res silent d. x = LoadUrl res silent d \<longrightarrow> seconds g' = d)
     \<and> (\<forall>name content d. x = LoadFile name content d \<longrightarrow>
           seconds g' = (case file_bank up content of
                           Inr m \<Rightarrow> d | Inl e \<Rightarrow> seconds g))"
proof (cases x)
  case (Mark st)
  with assms show ?thesis
    by (auto simp: mark_def split: if_splits option.splits sum.splits)
next
  case (LoadUrl res silent d)
  with assms show ?thesis by (auto simp: loadFromUrl_def split: sum.splits)
next
  case (LoadFile name content d)
  with assms show ?thesis by (auto simp: loadFromFile_def split: sum.splits)
qed (use assms in \<open>auto simp: start_def pause_def reset_def tick_def countdown_def
      expire_def adjustTimer_def setTimer_def applyTimerInput_def split: option.splits\<close>)

theorem timer_steps_witness:
  "step id Owner Tick example_game = Inr (example_game\<lparr>seconds := 89\<rparr>)
   \<and> seconds (example_game\<lparr>seconds := 89\<rparr>) \<le> seconds example_game
   \<and> 0 \<le> seconds (example_game\<lparr>seconds := 89\<rparr>)"
proof -
  have h: "step id Owner Tick example_game = Inr (example_game\<lparr>seconds := 89\<rparr>)"
    by (simp add: tick_def countdown_def example_game_def)
  have "0 \<le> seconds example_game" by (simp add: example_game_def)
  with timer_steps [OF h] h show ?thesis by simp
qed

text \<open>
  A load that is pending while the timer input \<open>60\<close> is applied still sets \<open>seconds\<close>
  to the default 180 it started with.
\<close>

lemma load_uses_captured_default:
  "defaultSeconds (applyTimerInput Owner (Some 60) (initial 180)) = 60
   \<and> seconds (loadFromUrl id (Body example_doc) True (defaultSeconds (initial 180))
        (applyTimerInput Owner (Some 60) (initial 180))) = 180"
  by (simp add: applyTimerInput_def setTimer_def initial_def loadFromUrl_def url_bank_def
      mapped_example example_items_def)

text \<open>
  The claim as stated fails in three ways: while the timer runs the \<open>+10s\<close> button
  raises \<open>seconds\<close> from 90 to 100; a successful load from a file sets \<open>seconds\<close> from
  90 to the default 180 without a reset; and after the timer input \<open>-5\<close> and a reset the
  running timer stands at \<open>-5\<close> and the next tick raises it to 0.
\<close>

theorem timer_steps_counterexample:
  "running example_game \<and> seconds example_game = 90
   \<and> running (adjustTimer Owner 10 example_game)
   \<and> seconds (adjustTimer Owner 10 example_game) = 100
   \<and> seconds (loadFromFile id ''bank.json'' (Inr example_doc) 180 example_game) = 180
   \<and> running (start Owner (reset Owner (applyTimerInput Owner (Some (- 5)) example_game)))
   \<and> seconds (start Owner (reset Owner (applyTimerInput Owner (Some (- 5)) example_game))) = - 5
   \<and> seconds (tick Owner (start Owner (reset Owner
        (applyTimerInput Owner (Some (- 5)) example_game)))) = 0"
  by (simp add: example_game_def adjustTimer_def setTimer_def clamp_def loadFromFile_def
      file_bank_def mapped_example example_items_def start_def reset_def
      applyTimerInput_def tick_def countdown_def)

section \<open>Replication\<close>

subsection \<open>JavaScript values and messages\<close>

text \<open>
  The values that travel in messages. An object is the list of its properties (with
  distinct names); a property that is missing reads as \<open>undefined\<close>.
\<close>

datatype jsval =
    JUndefined
  | JNull
  | JBool bool
  | JNum int
  | JStr string
  | JItems "PlayItem list"
  | JObj "(string \<times> jsval) list"

fun truthy :: "jsval \<Rightarrow> bool" where
  "truthy JUndefined = False"
| "truthy JNull = False"
| "truthy (JBool b) = b"
| "truthy (JNum n) = (n \<noteq> 0)"
| "truthy (JStr s) = (s \<noteq> [])"
| "truthy (JItems xs) = True"
| "truthy (JObj kvs) = True"

text \<open>Reading a property of \<open>null\<close> or \<open>undefined\<close> throws a TypeError.\<close>

fun nullish :: "jsval \<Rightarrow> bool" where
  "nullish JUndefined = True"
| "nullish JNull = True"
| "nullish v = False"

text \<open>\<open>m.k\<close> for a value \<open>m\<close> that is not nullish.\<close>

fun field :: "jsval \<Rightarrow> string \<Rightarrow> jsval" where
  "field (JObj kvs) k = (case map_of kvs k of None \<Rightarrow> JUndefined | Some v \<Rightarrow> v)"
| "field v k = JUndefined"

text \<open>The shorthand properties \<open>items, idx, seconds, running, finished\<close> of both payloads.\<close>

definition state_fields :: "game \<Rightarrow> (string \<times> jsval) list" where
  "state_fields g =
     [(''items'', JItems (items g)), (''idx'', JNum (idx g)), (''seconds'', JNum (seconds g)),
      (''running'', JBool (running g)), (''finished'', JBool (finished g))]"

subsection \<open>The owner's sends\<close>

text \<open>
  A session: the role and room of the component, whether the global \<open>bc\<close> exists,
  whether \<open>roomChannelRef.current\<close> holds the channel (created with the topic
  \<open>roomId\<close>), and the state \<open>joined\<close>.
\<close>

record session =
  role :: role
  roomId :: string
  bc :: bool
  hasChannel :: bool
  joined :: bool

text \<open>
  The calls on the transports: \<open>bc.postMessage(m)\<close>;
  \<open>localStorage.setItem(key, JSON.stringify({...m, ts}))\<close>, written \<open>SetItem key m ts\<close>;
  and \<open>send(msg)\<close> on the channel of a topic.
\<close>

datatype send =
    PostMessage jsval
  | SetItem string jsval int
  | ChannelSend string jsval

definition local_payload :: "string \<Rightarrow> game \<Rightarrow> jsval" where
  "local_payload room g =
     JObj ((''type'', JStr ''state'') # state_fields g @ [(''roomId'', JStr room)])"

definition realtime_message :: "game \<Rightarrow> jsval" where
  "realtime_message g =
     JObj [(''type'', JStr ''broadcast''), (''event'', JStr ''state''),
           (''payload'', JObj (state_fields g))]"

text \<open>
  \<open>ts\<close> is the value of \<open>Date.now()\<close>. The storage write is recorded as made; the
  source swallows its exception when it fails.
\<close>

definition broadcastLocal :: "session \<Rightarrow> game \<Rightarrow> int \<Rightarrow> send list" where
  "broadcastLocal s g ts =
     (if bc s then [PostMessage (local_payload (roomId s) g)] else [])
     @ [SetItem ''rosco-sync'' (local_payload (roomId s) g) ts]"

text \<open>
  \<open>now\<close> is the value of \<open>performance.now()\<close> and \<open>lastSent\<close> the content of
  \<open>lastSentRef\<close>; the result carries its new content.
\<close>

definition broadcastRealtime :: "session \<Rightarrow> game \<Rightarrow> real \<Rightarrow> real \<Rightarrow> send list \<times> real" where
  "broadcastRealtime s g now lastSent =
     (if \<not> hasChannel s \<or> \<not> joined s then ([], lastSent)
      else if now - lastSent < 120 then ([], lastSent)
      else ([ChannelSend (roomId s) (realtime_message g)], now))"

definition broadcastAll :: "session \<Rightarrow> game \<Rightarrow> int \<Rightarrow> real \<Rightarrow> real \<Rightarrow> send list \<times> real" where
  "broadcastAll s g ts now lastSent =
     (if role s \<noteq> Owner then ([], lastSent)
      else (broadcastLocal s g ts @ fst (broadcastRealtime s g now lastSent),
            snd (broadcastRealtime s g now lastSent)))"

text \<open>The effect on \<open>[items, idx, seconds, running, finished, joined, role]\<close>.\<close>

definition publish :: "session \<Rightarrow> game \<Rightarrow> int \<Rightarrow> real \<Rightarrow> real \<Rightarrow> send list \<times> real" where
  "publish s g ts now lastSent =
     (if role s = Owner \<and> joined s then broadcastAll s g ts now lastSent
      else ([], lastSent))"

text \<open>
  The effect on \<open>[seconds, running, role]\<close>: its state updates are those of \<open>expire\<close>,
  and \<open>broadcastAll\<close> is the function of the render the effect belongs to, which sends
  the state of that render.
\<close>

definition expiry_effect ::
  "session \<Rightarrow> game \<Rightarrow> int \<Rightarrow> real \<Rightarrow> real \<Rightarrow> game \<times> send list \<times> real" where
  "expiry_effect s g ts now lastSent =
     (if seconds g = 0 \<and> running g \<and> role s = Owner
      then (g\<lparr>running := False, finished := True\<rparr>, broadcastAll s g ts now lastSent)
      else (g, [], lastSent))"

text \<open>
  The clock readings \<open>Date.now()\<close> and \<open>performance.now()\<close> of one call of
  \<open>broadcastAll\<close>, and a change of state: the state of the new render with the readings
  at its publish effect.
\<close>

record clock =
  wall :: int
  perf :: real

record change = clock +
  state :: game

fun publish_all :: "session \<Rightarrow> change list \<Rightarrow> real \<Rightarrow> send list \<times> real" where
  "publish_all s [] lastSent = ([], lastSent)"
| "publish_all s (c # cs) lastSent =
     (fst (publish s (state c) (wall c) (perf c) lastSent)
        @ fst (publish_all s cs (snd (publish s (state c) (wall c) (perf c) lastSent))),
      snd (publish_all s cs (snd (publish s (state c) (wall c) (perf c) lastSent))))"

fun is_post :: "send \<Rightarrow> bool" where
  "is_post (PostMessage m) = True"
| "is_post x = False"

fun is_setitem :: "send \<Rightarrow> bool" where
  "is_setitem (SetItem k m ts) = True"
| "is_setitem x = False"

fun is_channel :: "send \<Rightarrow> bool" where
  "is_channel (ChannelSend topic m) = True"
| "is_channel x = False"

text \<open>
  One commit of a render of state \<open>g\<close>: the expiry effect, then the publish effect, both
  closed over \<open>g\<close>; the state updates of the commit give the state of the next render.
  \<open>settle\<close> follows a change of state through its commit and, when that commit changes
  the state again, through the commit of the render that follows.
\<close>

definition commit ::
  "session \<Rightarrow> game \<Rightarrow> clock \<Rightarrow> clock \<Rightarrow> real \<Rightarrow> game \<times> send list \<times> real" where
  "commit s g c1 c2 lastSent =
     (let (g', out1, l1) = expiry_effect s g (wall c1) (perf c1) lastSent;
          (out2, l2) = publish s g (wall c2) (perf c2) l1
      in (g', out1 @ out2, l2))"

definition settle ::
  "session \<Rightarrow> game \<Rightarrow> clock \<Rightarrow> clock \<Rightarrow> clock \<Rightarrow> clock \<Rightarrow> real
     \<Rightarrow> game \<times> send list \<times> real" where
  "settle s g c1 c2 c3 c4 lastSent =
     (let (g1, out1, l1) = commit s g c1 c2 lastSent
      in if g1 = g then (g1, out1, l1)
         else (let (g2, out2, l2) = commit s g1 c3 c4 l1 in (g2, out1 @ out2, l2)))"

text \<open>The send carries the snapshot of the state \<open>g\<close>.\<close>

fun carries :: "string \<Rightarrow> game \<Rightarrow> send \<Rightarrow> bool" where
  "carries room g (PostMessage m) = (m = local_payload room g)"
| "carries room g (SetItem k m ts) = (m = local_payload room g)"
| "carries room g (ChannelSend topic m) = (m = realtime_message g)"

definition example_session :: session where
  "example_session =
     \<lparr>role = Owner, roomId = ''ROOM01'', bc = True, hasChannel = True, joined = True\<rparr>"

definition example_changes :: "change list" where
  "example_changes =
     [\<lparr>wall = 1000, perf = 500, state = example_game\<rparr>,
      \<lparr>wall = 1040, perf = 540, state = example_game\<lparr>idx := 2\<rparr>\<rparr>,
      \<lparr>wall = 1100, perf = 600, state = example_game\<lparr>idx := 2, seconds := 89\<rparr>\<rparr>]"

subsection \<open>The throttle\<close>

lemma broadcastLocal_counts:
  "filter is_channel (broadcastLocal s g ts) = []"
  "length (filter is_setitem (broadcastLocal s g ts)) = 1"
  "length (filter is_post (broadcastLocal s g ts)) = (if bc s then 1 else 0)"
  by (simp_all add: broadcastLocal_def)

lemma broadcastRealtime_gate:
  "broadcastRealtime s g now lastSent =
     (if hasChannel s \<and> joined s \<and> 120 \<le> now - lastSent
      then ([ChannelSend (roomId s) (realtime_message g)], now) else ([], lastSent))"
  by (simp add: broadcastRealtime_def)

lemma broadcastRealtime_counts:
  "filter is_setitem (fst (broadcastRealtime s g now l)) = []"
  "filter is_post (fst (broadcastRealtime s g now l)) = []"
  by (simp_all add: broadcastRealtime_def)

lemma publish_channel_cases:
  "(filter is_channel (fst (publish s g ts now l)) = [] \<and> snd (publish s g ts now l) = l)
   \<or> (length (filter is_channel (fst (publish s g ts now l))) = 1
       \<and> snd (publish s g ts now l) = now)"
  by (simp add: publish_def broadcastAll_def broadcastRealtime_def broadcastLocal_def)

lemma publish_throttled:
  assumes "now - l < 120"
  shows "filter is_channel (fst (publish s g ts now l)) = [] \<and> snd (publish s g ts now l) = l"
  using assms
  by (simp add: publish_def broadcastAll_def broadcastRealtime_def broadcastLocal_def)

lemma publish_all_throttled:
  assumes "\<forall>c\<in>set cs. perf c - l < 120"
  shows "filter is_channel (fst (publish_all s cs l)) = [] \<and> snd (publish_all s cs l) = l"
  using assms
proof (induction cs)
  case Nil
  then show ?case by simp
next
  case (Cons c cs)
  then have "perf c - l < 120" by simp
  from publish_throttled [OF this, of s "state c" "wall c"] Cons show ?case by simp
qed

lemma publish_all_at_most_one:
  assumes "\<forall>c\<in>set cs. \<forall>c'\<in>set cs. perf c' - perf c < 120"
  shows "length (filter is_channel (fst (publish_all s cs l))) \<le> 1"
  using assms
proof (induction cs arbitrary: l)
  case Nil
  then show ?case by simp
next
  case (Cons c cs)
  have rest: "\<forall>a\<in>set cs. \<forall>b\<in>set cs. perf b - perf a < 120" using Cons.prems by simp
  from publish_channel_cases [of s "state c" "wall c" "perf c" l]
  show ?case
  proof
    assume dropped: "filter is_channel (fst (publish s (state c) (wall c) (perf c) l)) = []
      \<and> snd (publish s (state c) (wall c) (perf c) l) = l"
    with Cons.IH [OF rest, of l] show ?thesis by simp
  next
    assume sent: "length (filter is_channel (fst (publish s (state c) (wall c) (perf c) l))) = 1
      \<and> snd (publish s (state c) (wall c) (perf c) l) = perf c"
    have "\<forall>b\<in>set cs. perf b - perf c < 120" using Cons.prems by simp
    from publish_all_throttled [OF this, of s] sent show ?thesis by simp
  qed
qed

lemma publish_all_local:
  assumes "role s = Owner" "joined s"
  shows "length (filter is_setitem (fst (publish_all s cs l))) = length cs
       \<and> length (filter is_post (fst (publish_all s cs l))) = (if bc s then length cs else 0)"
proof (induction cs arbitrary: l)
  case Nil
  then show ?case by simp
next
  case (Cons c cs)
  have here: "fst (publish s (state c) (wall c) (perf c) l)
      = broadcastLocal s (state c) (wall c) @ fst (broadcastRealtime s (state c) (perf c) l)"
    using assms by (simp add: publish_def broadcastAll_def)
  show ?case
    using Cons [of "snd (publish s (state c) (wall c) (perf c) l)"]
    by (simp add: here broadcastLocal_counts broadcastRealtime_counts)
qed

lemma publish_all_not_joined:
  assumes "\<not> joined s"
  shows "publish_all s cs l = ([], l)"
  using assms by (induction cs) (simp_all add: publish_def)

text \<open>
  C3 (as amended). For the changes of state of an owner session whose readings of
  \<open>performance.now()\<close> lie within a window shorter than 120 ms, the publish effect
  sends at most once on the network channel. When the channel join has completed it
  writes to storage for every change and posts on the BroadcastChannel for every change
  when the BroadcastChannel exists; before the join has completed it sends nothing.
  A network send is made exactly when the channel exists, the join has completed and
  at least 120 ms have passed since the last accepted send; only then is the time of
  the last send updated, and a send that is not made leaves nothing behind.
\<close>

theorem throttle_bound:
  assumes "role s = Owner"
    and "\<forall>c\<in>set cs. \<forall>c'\<in>set cs. perf c' - perf c < 120"
  shows "length (filter is_channel (fst (publish_all s cs l))) \<le> 1
     \<and> (joined s \<longrightarrow>
          length (filter is_setitem (fst (publish_all s cs l))) = length cs
          \<and> length (filter is_post (fst (publish_all s cs l)))
              = (if bc s then length cs else 0))
     \<and> (\<not> joined s \<longrightarrow> fst (publish_all s cs l) = [])
     \<and> broadcastRealtime s g now lastSent =
         (if hasChannel s \<and> joined s \<and> 120 \<le> now - lastSent
          then ([ChannelSend (roomId s) (realtime_message g)], now) else ([], lastSent))"
  using publish_all_at_most_one [OF assms(2)] publish_all_local [OF assms(1)]
    publish_all_not_joined
  by (simp add: broadcastRealtime_gate)

theorem throttle_bound_witness:
  "role example_session = Owner \<and> joined example_session \<and> length example_changes = 3
   \<and> length (filter is_channel (fst (publish_all example_session example_changes 0))) \<le> 1
   \<and> length (filter is_setitem (fst (publish_all example_session example_changes 0))) = 3
   \<and> length (filter is_post (fst (publish_all example_session example_changes 0))) = 3"
proof -
  have h1: "role example_session = Owner" by (simp add: example_session_def)
  have h2: "\<forall>c\<in>set example_changes. \<forall>c'\<in>set example_changes. perf c' - perf c < 120"
    by (simp add: example_changes_def)
  have j: "joined example_session" "bc example_session" by (simp_all add: example_session_def)
  have n: "length example_changes = 3" by (simp add: example_changes_def)
  from throttle_bound [OF h1 h2, of 0] h1 j n show ?thesis by simp
qed

text \<open>
  The claim as stated fails before the join has completed: a change of state of the
  owner then reaches no transport, local or not. It also fails for the BroadcastChannel
  where that does not exist: only the storage write is made.
\<close>

theorem throttle_bound_counterexample:
  "fst (publish_all (example_session\<lparr>joined := False\<rparr>)
          [\<lparr>wall = 1000, perf = 500, state = example_game\<rparr>] 0) = []
   \<and> fst (publish_all (example_session\<lparr>bc := False\<rparr>)
          [\<lparr>wall = 1000, perf = 500, state = example_game\<rparr>] 0)
     = [SetItem ''rosco-sync'' (local_payload ''ROOM01'' example_game) 1000,
        ChannelSend ''ROOM01'' (realtime_message example_game)]"
  by (simp add: example_session_def publish_def broadcastAll_def broadcastLocal_def
      broadcastRealtime_def)

subsection \<open>Timer expiry\<close>

lemma payload_differs:
  assumes "running g"
  shows "local_payload room g \<noteq> local_payload room (g\<lparr>running := False, finished := True\<rparr>)"
    and "realtime_message g \<noteq> realtime_message (g\<lparr>running := False, finished := True\<rparr>)"
  using assms by (simp_all add: local_payload_def realtime_message_def state_fields_def)

lemma broadcastAll_other:
  assumes "local_payload (roomId s) g \<noteq> local_payload (roomId s) g1"
    and "realtime_message g \<noteq> realtime_message g1"
  shows "filter (carries (roomId s) g1) (fst (broadcastAll s g ts now l)) = []"
  using assms by (simp add: broadcastAll_def broadcastLocal_def broadcastRealtime_def)

lemma publish_other:
  assumes "local_payload (roomId s) g \<noteq> local_payload (roomId s) g1"
    and "realtime_message g \<noteq> realtime_message g1"
  shows "filter (carries (roomId s) g1) (fst (publish s g ts now l)) = []"
  using broadcastAll_other [OF assms] by (simp add: publish_def)

lemma commit_expiry:
  assumes "role s = Owner" "seconds g = 0" "running g"
  shows "fst (commit s g c1 c2 l) = g\<lparr>running := False, finished := True\<rparr>"
    and "filter (carries (roomId s) (g\<lparr>running := False, finished := True\<rparr>))
           (fst (snd (commit s g c1 c2 l))) = []"
proof -
  have c: "commit s g c1 c2 l =
      (g\<lparr>running := False, finished := True\<rparr>,
       fst (broadcastAll s g (wall c1) (perf c1) l)
         @ fst (publish s g (wall c2) (perf c2) (snd (broadcastAll s g (wall c1) (perf c1) l))),
       snd (publish s g (wall c2) (perf c2) (snd (broadcastAll s g (wall c1) (perf c1) l))))"
    using assms by (simp add: commit_def expiry_effect_def Let_def split_def)
  show "fst (commit s g c1 c2 l) = g\<lparr>running := False, finished := True\<rparr>"
    by (simp add: c)
  show "filter (carries (roomId s) (g\<lparr>running := False, finished := True\<rparr>))
           (fst (snd (commit s g c1 c2 l))) = []"
    by (simp add: c
        broadcastAll_other [OF payload_differs(1) [OF assms(3)] payload_differs(2) [OF assms(3)]]
        publish_other [OF payload_differs(1) [OF assms(3)] payload_differs(2) [OF assms(3)]])
qed

lemma commit_settled:
  assumes "\<not> running g"
  shows "commit s g c1 c2 l = (g, fst (publish s g (wall c2) (perf c2) l),
                               snd (publish s g (wall c2) (perf c2) l))"
  using assms by (simp add: commit_def expiry_effect_def Let_def split_def)

lemma settle_expiry:
  assumes "role s = Owner" "seconds g = 0" "running g"
  shows "settle s g c1 c2 c3 c4 l =
     (g\<lparr>running := False, finished := True\<rparr>,
      fst (snd (commit s g c1 c2 l))
        @ fst (publish s (g\<lparr>running := False, finished := True\<rparr>) (wall c4) (perf c4)
                 (snd (snd (commit s g c1 c2 l)))),
      snd (publish s (g\<lparr>running := False, finished := True\<rparr>) (wall c4) (perf c4)
                 (snd (snd (commit s g c1 c2 l)))))"
proof -
  have ne: "g\<lparr>running := False, finished := True\<rparr> \<noteq> g"
  proof
    assume "g\<lparr>running := False, finished := True\<rparr> = g"
    then have "running (g\<lparr>running := False, finished := True\<rparr>) = running g" by simp
    with assms(3) show False by simp
  qed
  have nr: "\<not> running (g\<lparr>running := False, finished := True\<rparr>)" by simp
  show ?thesis
    unfolding settle_def
    using ne
    by (simp add: split_def Let_def commit_expiry(1) [OF assms] commit_settled [OF nr])
qed

text \<open>
  What the two commits around an expiry do. The state moves to \<open>running = False\<close>,
  \<open>finished = True\<close> and no other field changes. When the channel join has completed,
  the snapshot of the resulting state is written to storage once and posted on the
  BroadcastChannel once where that exists, by the publish effect of the render that
  follows; it is sent on the network channel once if the channel exists and at least
  120 ms have passed since the last accepted network send, and otherwise not at all.
\<close>

lemma settle_expiry_sends:
  assumes "role s = Owner" "seconds g = 0" "running g"
  shows "fst (settle s g c1 c2 c3 c4 l) = g\<lparr>running := False, finished := True\<rparr>
     \<and> (joined s \<longrightarrow>
          length (filter (\<lambda>x. is_setitem x \<and> carries (roomId s) (fst (settle s g c1 c2 c3 c4 l)) x)
                    (fst (snd (settle s g c1 c2 c3 c4 l)))) = 1
          \<and> length (filter (\<lambda>x. is_post x \<and> carries (roomId s) (fst (settle s g c1 c2 c3 c4 l)) x)
                    (fst (snd (settle s g c1 c2 c3 c4 l)))) = (if bc s then 1 else 0)
          \<and> length (filter (\<lambda>x. is_channel x \<and> carries (roomId s) (fst (settle s g c1 c2 c3 c4 l)) x)
                    (fst (snd (settle s g c1 c2 c3 c4 l))))
              = (if hasChannel s \<and> 120 \<le> perf c4 - snd (snd (commit s g c1 c2 l))
                 then 1 else 0))"
proof -
  let ?g1 = "g\<lparr>running := False, finished := True\<rparr>"
  have none: "filter (\<lambda>x. P x \<and> carries (roomId s) ?g1 x) (fst (snd (commit s g c1 c2 l))) = []"
    for P
  proof -
    have "filter (\<lambda>x. P x \<and> carries (roomId s) ?g1 x) (fst (snd (commit s g c1 c2 l)))
        = filter P (filter (carries (roomId s) ?g1) (fst (snd (commit s g c1 c2 l))))"
      by (simp add: conj_commute)
    then show ?thesis by (simp add: commit_expiry(2) [OF assms])
  qed
  show ?thesis
    unfolding settle_expiry [OF assms]
    using assms(1)
    by (simp add: none publish_def broadcastAll_def broadcastLocal_def broadcastRealtime_def)
qed

definition expired_game :: game where
  "expired_game = example_game\<lparr>seconds := 0\<rparr>"

text \<open>
  C7. When \<open>seconds\<close> reaches 0 while the game runs on an owner session, the owner is to
  move to \<open>running = False\<close>, \<open>finished = True\<close>, all other fields unchanged, and to
  publish exactly one snapshot, that of the resulting state. The code makes the
  transition but not the publication. The expiry effect calls \<open>broadcastAll\<close> right
  after \<open>setRunning(false)\<close> and \<open>setFinished(true)\<close>, and that function belongs to the
  render in which \<open>running\<close> is still true and \<open>finished\<close> still false: what it sends
  is the state before the transition. On an owner whose game stands at \<open>seconds = 0\<close>,
  \<open>running = True\<close>: the expiry effect alone sends the earlier state on all three
  transports; before the join has completed these local sends are all that is sent, and
  the resulting state reaches no transport; after the join the network channel carries
  only the earlier state, the resulting one following 2 ms later being dropped by the
  throttle, and storage is written three times, twice with the earlier state.
\<close>

theorem expiry_sends_stale_snapshot:
  "fst (settle example_session expired_game \<lparr>wall = 5000, perf = 4000\<rparr>
        \<lparr>wall = 5000, perf = 4000\<rparr> \<lparr>wall = 5002, perf = 4002\<rparr> \<lparr>wall = 5002, perf = 4002\<rparr> 3000)
     = expired_game\<lparr>running := False, finished := True\<rparr>
   \<and> fst (snd (expiry_effect example_session expired_game 5000 4000 3000))
     = [PostMessage (local_payload ''ROOM01'' expired_game),
        SetItem ''rosco-sync'' (local_payload ''ROOM01'' expired_game) 5000,
        ChannelSend ''ROOM01'' (realtime_message expired_game)]
   \<and> field (local_payload ''ROOM01'' expired_game) ''running'' = JBool True
   \<and> field (local_payload ''ROOM01'' expired_game) ''finished'' = JBool False
   \<and> fst (snd (settle (example_session\<lparr>joined := False\<rparr>) expired_game
        \<lparr>wall = 5000, perf = 4000\<rparr> \<lparr>wall = 5000, perf = 4000\<rparr>
        \<lparr>wall = 5002, perf = 4002\<rparr> \<lparr>wall = 5002, perf = 4002\<rparr> 3000))
     = [PostMessage (local_payload ''ROOM01'' expired_game),
        SetItem ''rosco-sync'' (local_payload ''ROOM01'' expired_game) 5000]
   \<and> filter is_channel (fst (snd (settle example_session expired_game
        \<lparr>wall = 5000, perf = 4000\<rparr> \<lparr>wall = 5000, perf = 4000\<rparr>
        \<lparr>wall = 5002, perf = 4002\<rparr> \<lparr>wall = 5002, perf = 4002\<rparr> 3000)))
     = [ChannelSend ''ROOM01'' (realtime_message expired_game)]
   \<and> filter is_setitem (fst (snd (settle example_session expired_game
        \<lparr>wall = 5000, perf = 4000\<rparr> \<lparr>wall = 5000, perf = 4000\<rparr>
        \<lparr>wall = 5002, perf = 4002\<rparr> \<lparr>wall = 5002, perf = 4002\<rparr> 3000)))
     = [SetItem ''rosco-sync'' (local_payload ''ROOM01'' expired_game) 5000,
        SetItem ''rosco-sync'' (local_payload ''ROOM01'' expired_game) 5000,
        SetItem ''rosco-sync''
          (local_payload ''ROOM01'' (expired_game\<lparr>running := False, finished := True\<rparr>)) 5002]"
  by (simp add: settle_def commit_def expiry_effect_def publish_def broadcastAll_def
      broadcastLocal_def broadcastRealtime_def example_session_def expired_game_def
      example_game_def local_payload_def state_fields_def)

subsection \<open>The room tag\<close>

text \<open>
  C9 (as amended). Every message \<open>broadcastAll\<close> sends on the local transports
  (BroadcastChannel and storage) has the type \<open>state\<close>, the five fields of the state
  and the session's room in its property \<open>roomId\<close>. The message sent on the network
  channel has the five fields of the state in its payload and no property \<open>roomId\<close>,
  neither in the message nor in its payload: its room is the topic of the channel it is
  sent on.
\<close>

theorem envelopes_room_tag:
  assumes "x \<in> set (fst (broadcastAll s g ts now l))"
  shows "case x of
           PostMessage m \<Rightarrow>
             field m ''type'' = JStr ''state'' \<and> field m ''roomId'' = JStr (roomId s)
             \<and> field m ''items'' = JItems (items g) \<and> field m ''idx'' = JNum (idx g)
             \<and> field m ''seconds'' = JNum (seconds g)
             \<and> field m ''running'' = JBool (running g)
             \<and> field m ''finished'' = JBool (finished g)
         | SetItem k m t \<Rightarrow>
             k = ''rosco-sync'' \<and> t = ts
             \<and> field m ''type'' = JStr ''state'' \<and> field m ''roomId'' = JStr (roomId s)
             \<and> field m ''items'' = JItems (items g) \<and> field m ''idx'' = JNum (idx g)
             \<and> field m ''seconds'' = JNum (seconds g)
             \<and> field m ''running'' = JBool (running g)
             \<and> field m ''finished'' = JBool (finished g)
         | ChannelSend topic msg \<Rightarrow>
             topic = roomId s \<and> field msg ''payload'' = JObj (state_fields g)
             \<and> field msg ''roomId'' = JUndefined
             \<and> field (field msg ''payload'') ''roomId'' = JUndefined"
  using assms
  by (auto simp: broadcastAll_def broadcastLocal_def broadcastRealtime_def local_payload_def
      realtime_message_def state_fields_def split: if_splits)

theorem envelopes_room_tag_witness:
  "SetItem ''rosco-sync'' (local_payload ''ROOM01'' example_game) 1000
     \<in> set (fst (broadcastAll example_session example_game 1000 500 0))
   \<and> field (local_payload ''ROOM01'' example_game) ''roomId'' = JStr ''ROOM01''"
proof -
  have h: "SetItem ''rosco-sync'' (local_payload ''ROOM01'' example_game) 1000
     \<in> set (fst (broadcastAll example_session example_game 1000 500 0))"
    by (simp add: broadcastAll_def broadcastLocal_def example_session_def)
  from envelopes_room_tag [OF h] h show ?thesis by (simp add: example_session_def)
qed

text \<open>
  The claim as stated fails on the network transport: the message the owner of room
  \<open>ROOM01\<close> sends has no room tag, and the owner of another room with the same state
  sends the same message.
\<close>

theorem envelopes_room_tag_counterexample:
  "fst (broadcastRealtime example_session example_game 500 0)
     = [ChannelSend ''ROOM01'' (realtime_message example_game)]
   \<and> field (realtime_message example_game) ''roomId'' = JUndefined
   \<and> field (field (realtime_message example_game) ''payload'') ''roomId'' = JUndefined
   \<and> fst (broadcastRealtime (example_session\<lparr>roomId := ''ROOM02''\<rparr>) example_game 500 0)
     = [ChannelSend ''ROOM02'' (realtime_message example_game)]"
  by (simp add: broadcastRealtime_def example_session_def realtime_message_def
      state_fields_def)

subsection \<open>The player's handlers\<close>

text \<open>
  In a player session the same five state variables hold whatever the last applied
  message carried, so they are JavaScript values. A handler is modelled by the
  \<open>set...\<close> calls it makes, in order; they are applied to the state together.
\<close>

record replica =
  p_items :: jsval
  p_idx :: jsval
  p_seconds :: jsval
  p_running :: jsval
  p_finished :: jsval

datatype setter =
    SetItems jsval
  | SetIdx jsval
  | SetSeconds jsval
  | SetRunning jsval
  | SetFinished jsval

fun apply_setter :: "replica \<Rightarrow> setter \<Rightarrow> replica" where
  "apply_setter r (SetItems v) = r\<lparr>p_items := v\<rparr>"
| "apply_setter r (SetIdx v) = r\<lparr>p_idx := v\<rparr>"
| "apply_setter r (SetSeconds v) = r\<lparr>p_seconds := v\<rparr>"
| "apply_setter r (SetRunning v) = r\<lparr>p_running := v\<rparr>"
| "apply_setter r (SetFinished v) = r\<lparr>p_finished := v\<rparr>"

definition apply_setters :: "replica \<Rightarrow> setter list \<Rightarrow> replica" where
  "apply_setters r cs = foldl apply_setter r cs"

text \<open>The five calls \<open>setItems(m.items); ... setFinished(m.finished)\<close>.\<close>

definition set_state :: "jsval \<Rightarrow> setter list" where
  "set_state m =
     [SetItems (field m ''items''), SetIdx (field m ''idx''),
      SetSeconds (field m ''seconds''), SetRunning (field m ''running''),
      SetFinished (field m ''finished'')]"

text \<open>\<open>onMsg\<close>, applied to \<open>e.data\<close>.\<close>

definition onMsg :: "string \<Rightarrow> jsval \<Rightarrow> setter list" where
  "onMsg room m =
     (if \<not> truthy m \<or> field m ''type'' \<noteq> JStr ''state'' then []
      else if truthy (field m ''roomId'') \<and> field m ''roomId'' \<noteq> JStr room then []
      else set_state m)"

record storage_event =
  key :: "string option"
  newValue :: "string option"

text \<open>
  \<open>onStorage\<close>. \<open>JSON.parse\<close> is the parameter \<open>JSON_parse\<close> (\<open>None\<close> when it throws);
  the \<open>catch\<close> also swallows the TypeError of reading \<open>m.type\<close> on \<open>null\<close>.
\<close>

definition onStorage :: "(string \<Rightarrow> jsval option) \<Rightarrow> string \<Rightarrow> storage_event \<Rightarrow> setter list" where
  "onStorage JSON_parse room e =
     (case newValue e of
        None \<Rightarrow> []
      | Some v \<Rightarrow>
          if key e = Some ''rosco-sync'' \<and> v \<noteq> [] then
            (case JSON_parse v of
               None \<Rightarrow> []
             | Some m \<Rightarrow>
                 if nullish m then []
                 else if field m ''type'' = JStr ''state''
                      \<and> (\<not> truthy (field m ''roomId'') \<or> field m ''roomId'' = JStr room)
                 then set_state m
                 else [])
          else [])"

text \<open>The handler of the \<open>state\<close> broadcast event on the network channel.\<close>

definition on_broadcast :: "role \<Rightarrow> jsval \<Rightarrow> setter list" where
  "on_broadcast rl msg =
     (let m = field msg ''payload''
      in if \<not> truthy m then [] else if rl = Player then set_state m else [])"

text \<open>
  The listeners of a session: the two local ones are registered in a player session only
  (the first on \<open>bc\<close>, where it exists), the network one with the channel.
\<close>

definition receive_message :: "session \<Rightarrow> jsval \<Rightarrow> replica \<Rightarrow> replica" where
  "receive_message s m r =
     (if role s \<noteq> Player \<or> \<not> bc s then r else apply_setters r (onMsg (roomId s) m))"

definition receive_storage ::
  "(string \<Rightarrow> jsval option) \<Rightarrow> session \<Rightarrow> storage_event \<Rightarrow> replica \<Rightarrow> replica" where
  "receive_storage JSON_parse s e r =
     (if role s \<noteq> Player then r else apply_setters r (onStorage JSON_parse (roomId s) e))"

definition receive_broadcast :: "session \<Rightarrow> jsval \<Rightarrow> replica \<Rightarrow> replica" where
  "receive_broadcast s msg r =
     (if \<not> hasChannel s then r else apply_setters r (on_broadcast (role s) msg))"

text \<open>The replica that holds exactly the five fields of a message.\<close>

definition payload_replica :: "jsval \<Rightarrow> replica" where
  "payload_replica m =
     \<lparr>p_items = field m ''items'', p_idx = field m ''idx'', p_seconds = field m ''seconds'',
      p_running = field m ''running'', p_finished = field m ''finished''\<rparr>"

definition initial_replica :: "int \<Rightarrow> replica" where
  "initial_replica d =
     \<lparr>p_items = JItems [], p_idx = JNum 0, p_seconds = JNum d, p_running = JBool False,
      p_finished = JBool False\<rparr>"

definition player_session :: session where
  "player_session =
     \<lparr>role = Player, roomId = ''ROOM01'', bc = True, hasChannel = True, joined = True\<rparr>"

text \<open>
  A message of type \<open>state\<close> without the property \<open>roomId\<close>, and a stand-in for
  \<open>JSON.parse\<close> on three stored strings.
\<close>

definition untagged_payload :: "game \<Rightarrow> jsval" where
  "untagged_payload g = JObj ((''type'', JStr ''state'') # state_fields g)"

definition example_parse :: "string \<Rightarrow> jsval option" where
  "example_parse v =
     (if v = ''one'' then Some (local_payload ''ROOM01'' example_game)
      else if v = ''two'' then Some (local_payload ''ROOM02'' (example_game\<lparr>idx := 2\<rparr>))
      else if v = ''old'' then Some (untagged_payload (example_game\<lparr>idx := 1\<rparr>))
      else None)"

section \<open>Properties of the player's handlers\<close>

lemma apply_set_state: "apply_setters r (set_state m) = payload_replica m"
  by (simp add: apply_setters_def set_state_def payload_replica_def)

lemma set_state_nonempty: "set_state m \<noteq> []"
  by (simp add: set_state_def)

lemma apply_none: "apply_setters r [] = r"
  by (simp add: apply_setters_def)

lemma typed_truthy:
  assumes "field m k = JStr v"
  shows "truthy m \<and> \<not> nullish m"
  using assms by (cases m) simp_all

lemma onMsg_cases: "onMsg room m = [] \<or> onMsg room m = set_state m"
  by (simp add: onMsg_def)

lemma onStorage_cases:
  "onStorage JSON_parse room e = []
   \<or> (\<exists>v m. newValue e = Some v \<and> JSON_parse v = Some m
         \<and> onStorage JSON_parse room e = set_state m)"
  by (auto simp: onStorage_def split: option.splits)

lemma on_broadcast_cases:
  "on_broadcast rl msg = [] \<or> on_broadcast rl msg = set_state (field msg ''payload'')"
  by (simp add: on_broadcast_def Let_def)

lemma field_local_payload:
  "field (local_payload room g) ''type'' = JStr ''state''"
  "field (local_payload room g) ''roomId'' = JStr room"
  "field (local_payload room g) ''idx'' = JNum (idx g)"
  by (simp_all add: local_payload_def state_fields_def)

text \<open>
  C1. A player session of room \<open>A\<close> applies every field of a \<open>state\<close> message that
  carries the room \<open>A\<close>, and makes no \<open>set...\<close> call for one that carries another,
  non-empty room \<open>B\<close>: on the BroadcastChannel listener and on the storage listener
  alike, and the replica stays as it was.
\<close>

theorem room_isolation:
  assumes "role s = Player" and "roomId s = A" and "B \<noteq> []" and "B \<noteq> A"
    and "field E1 ''type'' = JStr ''state''" and "field E1 ''roomId'' = JStr A"
    and "field E2 ''type'' = JStr ''state''" and "field E2 ''roomId'' = JStr B"
    and "v1 \<noteq> []" and "JSON_parse v1 = Some E1"
    and "v2 \<noteq> []" and "JSON_parse v2 = Some E2"
  shows "onMsg (roomId s) E1 = set_state E1
     \<and> onMsg (roomId s) E2 = []
     \<and> onStorage JSON_parse (roomId s) \<lparr>key = Some ''rosco-sync'', newValue = Some v1\<rparr>
         = set_state E1
     \<and> onStorage JSON_parse (roomId s) \<lparr>key = Some ''rosco-sync'', newValue = Some v2\<rparr> = []
     \<and> (bc s \<longrightarrow> receive_message s E1 r = payload_replica E1 \<and> receive_message s E2 r = r)
     \<and> receive_storage JSON_parse s \<lparr>key = Some ''rosco-sync'', newValue = Some v1\<rparr> r
         = payload_replica E1
     \<and> receive_storage JSON_parse s \<lparr>key = Some ''rosco-sync'', newValue = Some v2\<rparr> r = r"
proof -
  note t1 = typed_truthy [OF assms(5)]
  note t2 = typed_truthy [OF assms(7)]
  have m1: "onMsg (roomId s) E1 = set_state E1"
    using assms(2,5,6) t1 by (simp add: onMsg_def)
  have m2: "onMsg (roomId s) E2 = []"
    using assms(2,3,4,7,8) t2 by (simp add: onMsg_def)
  have s1: "onStorage JSON_parse (roomId s) \<lparr>key = Some ''rosco-sync'', newValue = Some v1\<rparr>
         = set_state E1"
    using assms(2,5,6,9,10) t1 by (simp add: onStorage_def)
  have s2: "onStorage JSON_parse (roomId s) \<lparr>key = Some ''rosco-sync'', newValue = Some v2\<rparr> = []"
    using assms(2,3,4,7,8,11,12) t2 by (simp add: onStorage_def)
  show ?thesis
    using assms(1)
    by (simp add: m1 m2 s1 s2 receive_message_def receive_storage_def apply_set_state apply_none)
qed

theorem room_isolation_witness:
  "role player_session = Player \<and> roomId player_session = ''ROOM01'' \<and> bc player_session
   \<and> receive_message player_session (local_payload ''ROOM01'' example_game)
        (initial_replica 180)
       = payload_replica (local_payload ''ROOM01'' example_game)
   \<and> receive_message player_session (local_payload ''ROOM02'' (example_game\<lparr>idx := 2\<rparr>))
        (payload_replica (local_payload ''ROOM01'' example_game))
       = payload_replica (local_payload ''ROOM01'' example_game)
   \<and> receive_storage example_parse player_session
        \<lparr>key = Some ''rosco-sync'', newValue = Some ''two''\<rparr>
        (payload_replica (local_payload ''ROOM01'' example_game))
       = payload_replica (local_payload ''ROOM01'' example_game)
   \<and> p_idx (payload_replica (local_payload ''ROOM01'' example_game)) = JNum 0"
proof -
  have h1: "role player_session = Player" by (simp add: player_session_def)
  have h2: "roomId player_session = ''ROOM01''" by (simp add: player_session_def)
  have h3: "''ROOM02'' \<noteq> []" by simp
  have h4: "''ROOM02'' \<noteq> ''ROOM01''" by simp
  have p1: "''one'' \<noteq> []" "example_parse ''one'' = Some (local_payload ''ROOM01'' example_game)"
    by (simp_all add: example_parse_def)
  have p2: "''two'' \<noteq> []"
    "example_parse ''two'' = Some (local_payload ''ROOM02'' (example_game\<lparr>idx := 2\<rparr>))"
    by (simp_all add: example_parse_def)
  have b: "bc player_session" by (simp add: player_session_def)
  note t = room_isolation [OF h1 h2 h3 h4 field_local_payload(1) field_local_payload(2)
      field_local_payload(1) field_local_payload(2) p1 p2]
  have i: "p_idx (payload_replica (local_payload ''ROOM01'' example_game)) = JNum 0"
    by (simp add: payload_replica_def field_local_payload example_game_def)
  from t [of "initial_replica 180"]
    t [of "payload_replica (local_payload ''ROOM01'' example_game)"] h1 h2 b i
  show ?thesis by simp
qed

text \<open>
  C2. Whenever a handler of the player applies a message (it makes its \<open>set...\<close>
  calls), the replica afterwards holds exactly the five fields of the message, whatever
  it held before: on the BroadcastChannel listener, the storage listener and the
  network listener.
\<close>

theorem wholesale_replacement:
  "(onMsg room m \<noteq> [] \<longrightarrow> apply_setters r (onMsg room m) = payload_replica m)
   \<and> (onStorage JSON_parse room e \<noteq> [] \<longrightarrow>
        (\<exists>v m'. newValue e = Some v \<and> JSON_parse v = Some m'
           \<and> apply_setters r (onStorage JSON_parse room e) = payload_replica m'))
   \<and> (on_broadcast Player msg \<noteq> [] \<longrightarrow>
        apply_setters r (on_broadcast Player msg) = payload_replica (field msg ''payload''))"
proof (intro conjI impI)
  assume "onMsg room m \<noteq> []"
  with onMsg_cases [of room m] show "apply_setters r (onMsg room m) = payload_replica m"
    by (simp add: apply_set_state)
next
  assume "onStorage JSON_parse room e \<noteq> []"
  with onStorage_cases [of JSON_parse room e]
  show "\<exists>v m'. newValue e = Some v \<and> JSON_parse v = Some m'
           \<and> apply_setters r (onStorage JSON_parse room e) = payload_replica m'"
    by (auto simp: apply_set_state)
next
  assume "on_broadcast Player msg \<noteq> []"
  with on_broadcast_cases [of Player msg]
  show "apply_setters r (on_broadcast Player msg) = payload_replica (field msg ''payload'')"
    by (simp add: apply_set_state)
qed

theorem wholesale_replacement_witness:
  "onMsg ''ROOM01'' (local_payload ''ROOM01'' example_game) \<noteq> []
   \<and> apply_setters (initial_replica 180) (onMsg ''ROOM01'' (local_payload ''ROOM01'' example_game))
       = payload_replica (local_payload ''ROOM01'' example_game)
   \<and> on_broadcast Player (realtime_message example_game) \<noteq> []
   \<and> apply_setters (initial_replica 180) (on_broadcast Player (realtime_message example_game))
       = payload_replica (field (realtime_message example_game) ''payload'')
   \<and> p_items (payload_replica (field (realtime_message example_game) ''payload''))
       = JItems (items example_game)"
proof -
  have h1: "onMsg ''ROOM01'' (local_payload ''ROOM01'' example_game) \<noteq> []"
    using typed_truthy [OF field_local_payload(1), of "''ROOM01''" example_game]
    by (simp add: onMsg_def field_local_payload set_state_nonempty)
  have h2: "on_broadcast Player (realtime_message example_game) \<noteq> []"
    by (simp add: on_broadcast_def realtime_message_def set_state_nonempty)
  have i: "p_items (payload_replica (field (realtime_message example_game) ''payload''))
       = JItems (items example_game)"
    by (simp add: payload_replica_def realtime_message_def state_fields_def)
  from wholesale_replacement [of "''ROOM01''" "local_payload ''ROOM01'' example_game"
      "initial_replica 180" example_parse "\<lparr>key = None, newValue = None\<rparr>" "realtime_message example_game"]
    h1 h2 i
  show ?thesis by simp
qed

text \<open>
  C10. A player session of any room applies a \<open>state\<close> message whose \<open>roomId\<close> is
  missing, empty or otherwise falsy, on both local listeners; a \<open>state\<close> message is
  rejected only when its \<open>roomId\<close> is truthy and differs from the room of the session.
\<close>

theorem untagged_applied:
  assumes "field m ''type'' = JStr ''state''"
  shows "(\<not> truthy (field m ''roomId'') \<longrightarrow>
            onMsg room m = set_state m
            \<and> (v \<noteq> [] \<and> JSON_parse v = Some m \<longrightarrow>
                 onStorage JSON_parse room \<lparr>key = Some ''rosco-sync'', newValue = Some v\<rparr>
                   = set_state m)
            \<and> apply_setters r (set_state m) = payload_replica m)
     \<and> (onMsg room m = [] \<longrightarrow> truthy (field m ''roomId'') \<and> field m ''roomId'' \<noteq> JStr room)
     \<and> (v \<noteq> [] \<and> JSON_parse v = Some m
          \<and> onStorage JSON_parse room \<lparr>key = Some ''rosco-sync'', newValue = Some v\<rparr> = []
          \<longrightarrow> truthy (field m ''roomId'') \<and> field m ''roomId'' \<noteq> JStr room)"
  using assms typed_truthy [OF assms]
  by (auto simp: onMsg_def onStorage_def apply_set_state set_state_nonempty)

theorem untagged_applied_witness:
  "field (untagged_payload (example_game\<lparr>idx := 1\<rparr>)) ''type'' = JStr ''state''
   \<and> \<not> truthy (field (untagged_payload (example_game\<lparr>idx := 1\<rparr>)) ''roomId'')
   \<and> onMsg ''ROOM01'' (untagged_payload (example_game\<lparr>idx := 1\<rparr>))
       = set_state (untagged_payload (example_game\<lparr>idx := 1\<rparr>))
   \<and> onStorage example_parse ''ROOM01'' \<lparr>key = Some ''rosco-sync'', newValue = Some ''old''\<rparr>
       = set_state (untagged_payload (example_game\<lparr>idx := 1\<rparr>))
   \<and> apply_setters (payload_replica (local_payload ''ROOM01'' example_game))
        (set_state (untagged_payload (example_game\<lparr>idx := 1\<rparr>)))
       = payload_replica (untagged_payload (example_game\<lparr>idx := 1\<rparr>))
   \<and> p_idx (payload_replica (untagged_payload (example_game\<lparr>idx := 1\<rparr>))) = JNum 1"
proof -
  have h1: "field (untagged_payload (example_game\<lparr>idx := 1\<rparr>)) ''type'' = JStr ''state''"
    by (simp add: untagged_payload_def)
  have h2: "\<not> truthy (field (untagged_payload (example_game\<lparr>idx := 1\<rparr>)) ''roomId'')"
    by (simp add: untagged_payload_def state_fields_def)
  have p: "''old'' \<noteq> [] \<and> example_parse ''old'' = Some (untagged_payload (example_game\<lparr>idx := 1\<rparr>))"
    by (simp add: example_parse_def)
  have i: "p_idx (payload_replica (untagged_payload (example_game\<lparr>idx := 1\<rparr>))) = JNum 1"
    by (simp add: payload_replica_def untagged_payload_def state_fields_def)
  from untagged_applied [OF h1, of "''ROOM01''" "''old''" example_parse
      "payload_replica (local_payload ''ROOM01'' example_game)"] h1 h2 p i
  show ?thesis by simp
qed

section \<open>Question-bank ingestion\<close>

subsection \<open>Ingestion as the specification words it\<close>

text \<open>
  The records whose four fields are all present and non-empty, in order, and the play
  item made of one: letter uppercased, rule kept if it is one of the three values and
  otherwise the first, status pending.
\<close>

fun valid_records :: "raw_item option list \<Rightarrow> (string \<times> string \<times> string \<times> string) list" where
  "valid_records [] = []"
| "valid_records (None # ds) = valid_records ds"
| "valid_records (Some d # ds) =
     (case (raw_letter d, raw_rule d, raw_prompt d, raw_answer d) of
        (Some l, Some ru, Some p, Some a) \<Rightarrow>
          if l \<noteq> [] \<and> ru \<noteq> [] \<and> p \<noteq> [] \<and> a \<noteq> []
          then (l, ru, p, a) # valid_records ds else valid_records ds
      | _ \<Rightarrow> valid_records ds)"

definition normalize_rule :: "string \<Rightarrow> Rule" where
  "normalize_rule ru =
     (if ru = ''contiene'' then Contiene else if ru = ''termina'' then Termina else Empieza)"

fun load_record :: "(string \<Rightarrow> string) \<Rightarrow> string \<times> string \<times> string \<times> string \<Rightarrow> PlayItem" where
  "load_record up (l, ru, p, a) =
     \<lparr>letter = up l, rule = normalize_rule ru, prompt = p, answer = a, status = Pendiente\<rparr>"

lemma mapped_Cons_None: "mapped up (Array (None # ds)) = mapped up (Array ds)"
  by (simp add: mapped_def)

lemma mapped_Cons_Some:
  "mapped up (Array (Some d # ds))
     = (if keep d then map_item up d # mapped up (Array ds) else mapped up (Array ds))"
  by (simp add: mapped_def)

lemma mapped_valid_records:
  "mapped up (Array ds) = map (load_record up) (valid_records ds)"
proof (induction ds rule: valid_records.induct)
  case 1
  show ?case by (simp add: mapped_def)
next
  case (2 ds)
  then show ?case by (simp add: mapped_Cons_None)
next
  case (3 d ds)
  then show ?case
    by (auto simp: mapped_Cons_Some keep_def truthy_str_def map_item_def js_String_def
        to_rule_def normalize_rule_def split: option.splits)
qed

lemma mapped_NotArray: "mapped up NotArray = []"
  by (simp add: mapped_def)

text \<open>Every failure of a load from a URL ends in the fallback bank and a notice.\<close>

lemma loadFromUrl_failure:
  assumes "url_bank up res = Inl e"
  shows "loadFromUrl up res silent d g =
     g\<lparr>items := [], idx := 0, finished := False, running := False,
       seconds := d, snack := Some (LoadFailed e)\<rparr>"
  using assms by (simp add: loadFromUrl_def FALLBACK_DBZ_def)

text \<open>
  C8 (as amended). The loaded bank consists exactly of the records whose letter, rule,
  prompt and answer are all present and non-empty, in their order, each with its letter
  uppercased, its rule kept if it is one of the three values and otherwise \<open>empieza\<close>,
  and the status pending; a document that is not an array counts as empty. Records that
  fail the validation are dropped and the load goes on. When no record is left the load
  does not crash: a load from a URL puts the (empty) fallback bank in place, resets the
  game and shows a notice; a load from a file shows a notice and keeps the bank and the
  game as they were.
\<close>

theorem bank_ingestion:
  "mapped up (Array ds) = map (load_record up) (valid_records ds)
   \<and> mapped up NotArray = []
   \<and> loadFromUrl up (Body (Array ds)) silent d g =
       (if valid_records ds \<noteq> []
        then g\<lparr>items := map (load_record up) (valid_records ds), idx := 0, finished := False,
               running := False, seconds := d,
               snack := (if \<not> silent then Some BankLoaded else snack g)\<rparr>
        else g\<lparr>items := [], idx := 0, finished := False, running := False,
               seconds := d, snack := Some (LoadFailed EmptyOrMalformed)\<rparr>)
   \<and> loadFromFile up name (Inr (Array ds)) d' g =
       (if valid_records ds \<noteq> []
        then g\<lparr>items := map (load_record up) (valid_records ds), idx := 0, finished := False,
               running := False, seconds := d',
               snack := Some (BankLoadedFromFile name)\<rparr>
        else g\<lparr>snack := Some (FileReadFailed EmptyOrMalformed)\<rparr>)"
  by (simp add: loadFromUrl_def url_bank_def loadFromFile_def file_bank_def Let_def
      mapped_valid_records mapped_NotArray FALLBACK_DBZ_def)

theorem bank_ingestion_witness:
  "valid_records example_records
     = [(''a'', ''contiene'', ''p1'', ''x1''), (''b'', ''otra'', ''p2'', ''x2'')]
   \<and> mapped id (Array example_records) = example_items
   \<and> items (loadFromFile id ''bank.json'' (Inr (Array example_records)) 180 (initial 180))
       = example_items"
proof -
  have v: "valid_records example_records
     = [(''a'', ''contiene'', ''p1'', ''x1''), (''b'', ''otra'', ''p2'', ''x2'')]"
    by (simp add: example_records_def)
  from bank_ingestion [of id example_records False 180 "initial 180" "''bank.json''" 180] v
  show ?thesis by (simp add: example_items_def normalize_rule_def)
qed

text \<open>
  The claim as stated fails on the file path: an empty array loaded from a file leaves
  the three items of the running game in place and only sets the notice, where a load
  from a URL puts the empty fallback bank in place.
\<close>

theorem bank_ingestion_counterexample:
  "loadFromFile id ''bank.json'' (Inr (Array [])) 180 example_game
     = example_game\<lparr>snack := Some (FileReadFailed EmptyOrMalformed)\<rparr>
   \<and> length (items example_game) = 3
   \<and> running (loadFromFile id ''bank.json'' (Inr (Array [])) 180 example_game)
   \<and> items (loadFromUrl id (Body (Array [])) False 180 example_game) = []"
  by (simp add: loadFromFile_def file_bank_def loadFromUrl_def url_bank_def mapped_def
      FALLBACK_DBZ_def example_game_def)

end
